theory Spec2Isabelle
  imports
    Complex_Main
    "HOL-Library.AList"
    "HOL-Library.Char_ord"
    "HOL-Library.List_Lexorder"
    "HOL-Library.Product_Lexorder"
    "HOL-Library.Multiset"
begin

section \<open>Data model of \<open>recommending.py\<close>\<close>

text \<open>
  A Python \<open>dict\<close> keeps its keys in insertion order and the loops of the class iterate
  over \<open>items()\<close>, so a dictionary is an association list whose keys are pairwise
  different; \<open>d[k]\<close> and \<open>k in d\<close> are \<open>map_of d k\<close>, the assignment \<open>d[k] = v\<close> is
  \<open>AList.update k v d\<close> (the value is replaced in place when the key exists, the pair is
  appended otherwise). Ratings are Python floats; they are modelled by the real numbers,
  so every sum, product, quotient and square root below is the exact one. Strings are
  compared as Python compares them, character by character with the shorter prefix first.
\<close>

type_synonym ('k, 'v) dict = "('k \<times> 'v) list"

type_synonym profile = "(string, real) dict"

type_synonym ratings = "(int, real) dict"

type_synonym catalog = "(int, string \<times> string list) dict"

datatype error = KeyError | ZeroDivisionError

record MovieRecommender =
  movie_info :: catalog
  all_user_ratings :: "(int, ratings) dict"
  all_user_preferences :: "(int, profile) dict"

definition keys :: "('k, 'v) dict \<Rightarrow> 'k set" where
  "keys d = set (map fst d)"

definition dict_get :: "('k, 'v) dict \<Rightarrow> 'k \<Rightarrow> 'v \<Rightarrow> 'v" where
  "dict_get d k dflt = (case map_of d k of None \<Rightarrow> dflt | Some v \<Rightarrow> v)"

text \<open>\<open>d.update(new)\<close>: the pairs of \<open>new\<close> are assigned one after the other.\<close>

fun dict_update :: "('k, 'v) dict \<Rightarrow> ('k, 'v) dict \<Rightarrow> ('k, 'v) dict" where
  "dict_update d [] = d"
| "dict_update d ((k, v) # new) = dict_update (AList.update k v d) new"

section \<open>\<open>ratings_to_preferences\<close>\<close>

text \<open>The inner loop \<open>for genre in genres\<close> on the two accumulators.\<close>

fun add_genres :: "string list \<Rightarrow> real \<Rightarrow> profile \<times> (string, nat) dict \<Rightarrow>
    profile \<times> (string, nat) dict" where
  "add_genres [] score (totals, counts) = (totals, counts)"
| "add_genres (genre # genres) score (totals, counts) =
     add_genres genres score
       (AList.update genre (dict_get totals genre 0 + score) totals,
        AList.update genre (dict_get counts genre 0 + 1) counts)"

text \<open>The outer loop \<open>for movie_id, score in user_ratings.items()\<close>.\<close>

fun add_ratings :: "catalog \<Rightarrow> ratings \<Rightarrow> profile \<times> (string, nat) dict \<Rightarrow>
    profile \<times> (string, nat) dict" where
  "add_ratings mi [] acc = acc"
| "add_ratings mi ((movie_id, score) # rest) acc =
     (case map_of mi movie_id of
        None \<Rightarrow> add_ratings mi rest acc
      | Some (title, genres) \<Rightarrow> add_ratings mi rest (add_genres genres score acc))"

text \<open>
  The loop that computes the averages. \<open>counts[genre]\<close> raises \<open>KeyError\<close> on a missing
  key and the division raises \<open>ZeroDivisionError\<close> on a zero count.
\<close>

fun compute_averages :: "(string, nat) dict \<Rightarrow> profile \<Rightarrow> profile \<Rightarrow> error + profile" where
  "compute_averages counts [] averages = Inr averages"
| "compute_averages counts ((genre, tot) # rest) averages =
     (case map_of counts genre of
        None \<Rightarrow> Inl KeyError
      | Some c \<Rightarrow>
          if c = 0 then Inl ZeroDivisionError
          else compute_averages counts rest (AList.update genre (tot / real c) averages))"

definition ratings_to_preferences :: "catalog \<Rightarrow> ratings \<Rightarrow> error + profile" where
  "ratings_to_preferences mi user_ratings =
     (case add_ratings mi user_ratings ([], []) of
        (totals, counts) \<Rightarrow> compute_averages counts totals [])"

section \<open>\<open>cosine_similarity\<close>\<close>

text \<open>
  \<open>shared\<close> is a Python set, whose iteration order is not fixed; the sum over it is a sum
  over a finite set; every genre of \<open>shared\<close> is a key of both profiles, so the two
  lookups \<open>first[g]\<close> and \<open>second[g]\<close> find a value. The sums of the squares run over
  \<open>values()\<close>, in the order of the dictionary. With real numbers the product of two
  non-zero magnitudes is not zero, so the final division has no error branch.
\<close>

definition shared_genres :: "profile \<Rightarrow> profile \<Rightarrow> string set" where
  "shared_genres first second = keys first \<inter> keys second"

definition dot_product :: "profile \<Rightarrow> profile \<Rightarrow> real" where
  "dot_product first second =
     (\<Sum>g \<in> shared_genres first second. the (map_of first g) * the (map_of second g))"

definition magnitude :: "profile \<Rightarrow> real" where
  "magnitude p = sqrt (sum_list (map (\<lambda>v. v * v) (map snd p)))"

definition cosine_similarity :: "profile \<Rightarrow> profile \<Rightarrow> real" where
  "cosine_similarity first second =
     (if shared_genres first second = {} then 0
      else if magnitude first = 0 \<or> magnitude second = 0 then 0
      else dot_product first second / (magnitude first * magnitude second))"

section \<open>\<open>find_similar_user_by_id\<close>\<close>

text \<open>
  The loop over \<open>all_user_preferences.items()\<close>; the accumulator is the pair
  \<open>(best_similarity, best_match_id)\<close>.
\<close>

fun scan_users :: "int \<Rightarrow> profile \<Rightarrow> (int, profile) dict \<Rightarrow> real \<times> int \<Rightarrow> real \<times> int" where
  "scan_users user_id target_prefs [] (best_similarity, best_match_id) =
     (best_similarity, best_match_id)"
| "scan_users user_id target_prefs ((other_id, other_prefs) # rest)
       (best_similarity, best_match_id) =
     (if other_id \<noteq> user_id then
        (let similarity = cosine_similarity target_prefs other_prefs;
             better_similarity = (similarity > best_similarity);
             same_similarity = (similarity = best_similarity \<and> other_id > best_match_id)
         in if better_similarity \<or> same_similarity
            then scan_users user_id target_prefs rest (similarity, other_id)
            else scan_users user_id target_prefs rest (best_similarity, best_match_id))
      else scan_users user_id target_prefs rest (best_similarity, best_match_id))"

definition find_similar_user_by_id :: "MovieRecommender \<Rightarrow> int \<Rightarrow> error + int" where
  "find_similar_user_by_id self user_id =
     (case map_of (all_user_preferences self) user_id of
        None \<Rightarrow> Inl KeyError
      | Some target_prefs \<Rightarrow>
          Inr (snd (scan_users user_id target_prefs (all_user_preferences self) (- 1, - 1))))"

section \<open>\<open>make_recommendations_for_id\<close>\<close>

text \<open>
  \<open>list.sort(key = ...)\<close> is a stable sort by the key, as \<open>sort_key\<close> is; the keys are
  the pairs \<open>(-rating, name)\<close>, compared lexicographically.
\<close>

definition sort_pairs :: "(string \<times> real) list \<Rightarrow> (string \<times> real) list" where
  "sort_pairs xs = sort_key (\<lambda>pair. (- snd pair, fst pair)) xs"

text \<open>The first \<open>while\<close> loop: at most two genre names from the front of \<open>pairs\<close>.\<close>

function top_genres_loop :: "(string \<times> real) list \<Rightarrow> nat \<Rightarrow> string list \<Rightarrow> string list" where
  "top_genres_loop pairs index top_genres_list =
     (if index < length pairs \<and> length top_genres_list < 2
      then top_genres_loop pairs (index + 1) (top_genres_list @ [fst (pairs ! index)])
      else top_genres_list)"
  by pat_completeness auto
termination
  by (relation "measure (\<lambda>(pairs, index, top_genres_list). length pairs - index)") auto

declare top_genres_loop.simps [simp del]

text \<open>
  The body of the loop over \<open>recommender_ratings.items()\<close>: one rated movie is
  appended to the candidates, or not. \<open>self.movie_info[movie_id]\<close> is read only under
  \<open>in_metadata\<close>.
\<close>

definition consider_movie :: "catalog \<Rightarrow> ratings \<Rightarrow> string list \<Rightarrow> int \<times> real \<Rightarrow>
    (string \<times> real) list \<Rightarrow> (string \<times> real) list" where
  "consider_movie mi recipient_seen top_genres_list item candidates =
     (case item of (movie_id, rating) \<Rightarrow>
       (let not_seen = (map_of recipient_seen movie_id = None);
            in_metadata = (map_of mi movie_id \<noteq> None)
        in if not_seen \<and> in_metadata then
             (case map_of mi movie_id of
                None \<Rightarrow> candidates
              | Some (title, genres) \<Rightarrow>
                  (let genre_overlap = (card (set top_genres_list \<inter> set genres) > 0)
                   in if genre_overlap then candidates @ [(title, rating)] else candidates))
           else candidates))"

fun collect_candidates :: "catalog \<Rightarrow> ratings \<Rightarrow> string list \<Rightarrow> ratings \<Rightarrow>
    (string \<times> real) list \<Rightarrow> (string \<times> real) list" where
  "collect_candidates mi recipient_seen top_genres_list [] candidates = candidates"
| "collect_candidates mi recipient_seen top_genres_list (item # rest) candidates =
     collect_candidates mi recipient_seen top_genres_list rest
       (consider_movie mi recipient_seen top_genres_list item candidates)"

text \<open>The last \<open>while\<close> loop: the titles of at most five candidates go into the result.\<close>

function add_titles_loop :: "(string \<times> real) list \<Rightarrow> nat \<Rightarrow> string set \<Rightarrow> string set" where
  "add_titles_loop candidates index result =
     (if index < length candidates \<and> index < 5
      then add_titles_loop candidates (index + 1) (insert (fst (candidates ! index)) result)
      else result)"
  by pat_completeness auto
termination
  by (relation "measure (\<lambda>(candidates, index, result). length candidates - index)") auto

declare add_titles_loop.simps [simp del]

definition make_recommendations_for_id ::
    "MovieRecommender \<Rightarrow> int \<Rightarrow> int \<Rightarrow> error + string set" where
  "make_recommendations_for_id self recommender_id recipient_id =
     (case map_of (all_user_preferences self) recipient_id of
        None \<Rightarrow> Inr {}
      | Some recipient_prefs \<Rightarrow>
          if length recipient_prefs = 0 then Inr {}
          else
            (let pairs = sort_pairs recipient_prefs;
                 top_genres_list = top_genres_loop pairs 0 []
             in case map_of (all_user_ratings self) recommender_id of
                  None \<Rightarrow> Inl KeyError
                | Some recommender_ratings \<Rightarrow>
                    (case map_of (all_user_ratings self) recipient_id of
                       None \<Rightarrow> Inl KeyError
                     | Some recipient_seen \<Rightarrow>
                         (let candidates = collect_candidates (movie_info self) recipient_seen
                                top_genres_list recommender_ratings [];
                              candidates = sort_pairs candidates
                          in Inr (add_titles_loop candidates 0 {})))))"

section \<open>The constructor and \<open>add_new_ratings\<close>\<close>

text \<open>
  The dictionary comprehension \<open>{int(user_id): self.ratings_to_preferences(user_ratings)
  for user_id, user_ratings in ....items()}\<close>: the profiles are computed and assigned in
  the order of the items, and an exception of \<open>ratings_to_preferences\<close> ends it. The
  arguments are what \<open>read_from_json\<close> returns; its keys are integers already.
\<close>

fun build_preferences :: "catalog \<Rightarrow> (int, ratings) dict \<Rightarrow> (int, profile) dict \<Rightarrow>
    error + (int, profile) dict" where
  "build_preferences mi [] prefs = Inr prefs"
| "build_preferences mi ((user_id, user_ratings) # rest) prefs =
     (case ratings_to_preferences mi user_ratings of
        Inl e \<Rightarrow> Inl e
      | Inr p \<Rightarrow> build_preferences mi rest (AList.update user_id p prefs))"

definition init :: "catalog \<Rightarrow> (int, ratings) dict \<Rightarrow> error + MovieRecommender" where
  "init mi user_ratings =
     (case build_preferences mi user_ratings [] of
        Inl e \<Rightarrow> Inl e
      | Inr prefs \<Rightarrow>
          Inr \<lparr>movie_info = mi, all_user_ratings = user_ratings,
               all_user_preferences = prefs\<rparr>)"

definition add_new_ratings ::
    "MovieRecommender \<Rightarrow> (int, ratings) dict \<Rightarrow> error + MovieRecommender" where
  "add_new_ratings self new_ratings =
     (case build_preferences (movie_info self) new_ratings [] of
        Inl e \<Rightarrow> Inl e
      | Inr new_preferences \<Rightarrow>
          Inr (self\<lparr>all_user_ratings := dict_update (all_user_ratings self) new_ratings,
                    all_user_preferences :=
                      dict_update (all_user_preferences self) new_preferences\<rparr>))"

section \<open>The profile in the words of the specification\<close>

text \<open>
  The notions the specification uses to describe a profile. \<open>rated_genres\<close> are the
  genres of the catalogue movies the user rated, \<open>genre_ratings\<close> the user's ratings of
  the catalogue movies tagged with a genre, in the order of the ratings. The loop of
  \<open>ratings_to_preferences\<close> visits every entry of a movie's genre sequence, so a genre
  listed \<open>k\<close> times by a movie (\<open>tag_count\<close>) receives the movie's rating \<open>k\<close> times:
  \<open>weighted_total\<close> and \<open>weighted_count\<close> are the sum and the number of the ratings
  counted that way.
\<close>

definition tag_count :: "catalog \<Rightarrow> int \<Rightarrow> string \<Rightarrow> nat" where
  "tag_count mi movie_id g =
     (case map_of mi movie_id of None \<Rightarrow> 0 | Some (title, genres) \<Rightarrow> count_list genres g)"

definition rated_genres :: "catalog \<Rightarrow> ratings \<Rightarrow> string set" where
  "rated_genres mi user_ratings =
     (\<Union>(movie_id, score) \<in> set user_ratings.
        case map_of mi movie_id of None \<Rightarrow> {} | Some (title, genres) \<Rightarrow> set genres)"


definition weighted_total :: "catalog \<Rightarrow> ratings \<Rightarrow> string \<Rightarrow> real" where
  "weighted_total mi user_ratings g =
     (\<Sum>(movie_id, score)\<leftarrow>user_ratings. real (tag_count mi movie_id g) * score)"

definition weighted_count :: "catalog \<Rightarrow> ratings \<Rightarrow> string \<Rightarrow> nat" where
  "weighted_count mi user_ratings g =
     (\<Sum>(movie_id, score)\<leftarrow>user_ratings. tag_count mi movie_id g)"


section \<open>The recommendation in the words of the specification\<close>



text \<open>
  \<open>ys\<close> is \<open>xs\<close> put in the order (rating descending, name ascending): the same pairs,
  each as often, with ascending keys \<open>(-rating, name)\<close>.
\<close>

definition ranked :: "(string \<times> real) list \<Rightarrow> (string \<times> real) list \<Rightarrow> bool" where
  "ranked xs ys \<longleftrightarrow>
     mset ys = mset xs \<and> sorted (map (\<lambda>(name, rating). (- rating, name)) ys)"

section \<open>The neighbour in the words of the specification\<close>

text \<open>The candidates: the entries of the store under a key other than \<open>user_id\<close>.\<close>

definition other_users :: "(int, profile) dict \<Rightarrow> int \<Rightarrow> (int \<times> profile) set" where
  "other_users store user_id = {entry \<in> set store. fst entry \<noteq> user_id}"

text \<open>
  \<open>match_id\<close> is the key of a candidate whose similarity to the target is maximal and,
  among the candidates of that similarity, whose key is the greatest.
\<close>

definition best_match :: "profile \<Rightarrow> (int \<times> profile) set \<Rightarrow> int \<Rightarrow> bool" where
  "best_match target_prefs candidates match_id \<longleftrightarrow>
     (\<exists>match_prefs. (match_id, match_prefs) \<in> candidates \<and>
        (\<forall>(other_id, other_prefs) \<in> candidates.
           cosine_similarity target_prefs other_prefs <
             cosine_similarity target_prefs match_prefs \<or>
           cosine_similarity target_prefs other_prefs =
             cosine_similarity target_prefs match_prefs \<and> other_id \<le> match_id))"

text \<open>The pair \<open>(similarity, other_id)\<close> that the loop compares with the best pair so far.\<close>

definition match_key :: "profile \<Rightarrow> int \<times> profile \<Rightarrow> real \<times> int" where
  "match_key target_prefs entry = (cosine_similarity target_prefs (snd entry), fst entry)"

section \<open>Example data\<close>

text \<open>
  The catalogue and the ratings of the end-to-end example of the specification, with a
  third user whose only rated movie is not in the catalogue.
\<close>

definition example_catalog :: catalog where
  "example_catalog =
     [(1, (''A'', [''Drama''])), (2, (''B'', [''Comedy''])),
      (3, (''C'', [''Drama'', ''Comedy'']))]"

definition example_ratings :: "(int, ratings) dict" where
  "example_ratings = [(10, [(1, 5), (2, 1)]), (20, [(3, 4)]), (30, [(7, 3)])]"

definition example_recommender :: MovieRecommender where
  "example_recommender =
     \<lparr>movie_info = example_catalog, all_user_ratings = example_ratings,
      all_user_preferences =
        [(10, [(''Drama'', 5), (''Comedy'', 1)]), (20, [(''Drama'', 4), (''Comedy'', 4)]),
         (30, [])]\<rparr>"

text \<open>New ratings for the user 20 and for a new user 40.\<close>

definition example_new_ratings :: "(int, ratings) dict" where
  "example_new_ratings = [(20, [(1, 2)]), (40, [(2, 3)])]"


text \<open>
  Two users who rated the one movie of the catalogue, one of them with the user ID
  \<open>-3\<close> and the rating \<open>-1\<close>.
\<close>

definition sentinel_catalog :: catalog where
  "sentinel_catalog = [(1, (''T'', [''Drama'']))]"

definition sentinel_ratings :: "(int, ratings) dict" where
  "sentinel_ratings = [(5, [(1, 1)]), (- 3, [(1, - 1)])]"

definition sentinel_recommender :: MovieRecommender where
  "sentinel_recommender =
     \<lparr>movie_info = sentinel_catalog, all_user_ratings = sentinel_ratings,
      all_user_preferences = [(5, [(''Drama'', 1)]), (- 3, [(''Drama'', - 1)])]\<rparr>"

section \<open>Properties of \<open>cosine_similarity\<close>\<close>






section \<open>Properties of \<open>make_recommendations_for_id\<close>: the guarded paths\<close>

lemma add_titles_loop_Nil: "add_titles_loop [] index result = result"
  by (simp add: add_titles_loop.simps)

lemma consider_movie_seen:
  "map_of recipient_seen (fst item) \<noteq> None \<Longrightarrow>
   consider_movie mi recipient_seen tg item candidates = candidates"
  by (cases item) (auto simp: consider_movie_def)

lemma collect_candidates_all_seen:
  "\<forall>item \<in> set items. map_of recipient_seen (fst item) \<noteq> None \<Longrightarrow>
   collect_candidates mi recipient_seen tg items candidates = candidates"
  by (induction items arbitrary: candidates) (simp_all add: consider_movie_seen)

lemma map_of_own_keys: "item \<in> set d \<Longrightarrow> map_of d (fst item) \<noteq> None"
  by (metis domIff dom_map_of_conv_image_fst imageI)

text \<open>
  Claim C10: for every user present in both the raw-ratings store and the preference
  store, \<open>make_recommendations_for_id(u, u)\<close> returns the empty set: every movie the
  recommender rated is in the recipient's seen set.
\<close>

theorem recommend_self_empty:
  assumes "u \<in> keys (all_user_ratings self)"
    and "u \<in> keys (all_user_preferences self)"
  shows "make_recommendations_for_id self u u = Inr {}"
proof -
  obtain r where r: "map_of (all_user_ratings self) u = Some r"
    using assms(1) by (metis keys_def domD dom_map_of_conv_image_fst set_map)
  have "collect_candidates (movie_info self) r tg r [] = []" for tg
    by (rule collect_candidates_all_seen) (simp add: map_of_own_keys)
  then show ?thesis
    by (simp add: make_recommendations_for_id_def r sort_pairs_def add_titles_loop_Nil
        split: option.splits)
qed

theorem recommend_self_empty_witness:
  "10 \<in> keys (all_user_ratings example_recommender) \<and>
   10 \<in> keys (all_user_preferences example_recommender) \<and>
   make_recommendations_for_id example_recommender 10 10 = Inr {}"
proof -
  have 1: "10 \<in> keys (all_user_ratings example_recommender)"
    by (simp add: keys_def example_recommender_def example_ratings_def)
  have 2: "10 \<in> keys (all_user_preferences example_recommender)"
    by (simp add: keys_def example_recommender_def)
  show ?thesis using 1 2 recommend_self_empty [OF 1 2] by simp
qed

text \<open>
  Claim C4: \<open>find_similar_user_by_id\<close> raises \<open>KeyError\<close> when \<open>user_id\<close> is not a key
  of the preference store, and \<open>make_recommendations_for_id\<close> raises \<open>KeyError\<close> when
  \<open>recommender_id\<close> is not a key of the raw-ratings store while the recipient has a
  non-empty profile.
\<close>

theorem key_errors:
  "(user_id \<notin> keys (all_user_preferences self) \<longrightarrow>
      find_similar_user_by_id self user_id = Inl KeyError) \<and>
   (map_of (all_user_preferences self) recipient_id = Some recipient_prefs \<and>
    recipient_prefs \<noteq> [] \<and> recommender_id \<notin> keys (all_user_ratings self) \<longrightarrow>
      make_recommendations_for_id self recommender_id recipient_id = Inl KeyError)"
  by (auto simp: find_similar_user_by_id_def make_recommendations_for_id_def keys_def
      map_of_eq_None_iff [symmetric])

theorem key_errors_witness:
  "99 \<notin> keys (all_user_preferences example_recommender) \<and>
   find_similar_user_by_id example_recommender 99 = Inl KeyError \<and>
   map_of (all_user_preferences example_recommender) 10 =
     Some [(''Drama'', 5), (''Comedy'', 1)] \<and>
   99 \<notin> keys (all_user_ratings example_recommender) \<and>
   make_recommendations_for_id example_recommender 99 10 = Inl KeyError"
proof -
  have 1: "99 \<notin> keys (all_user_preferences example_recommender)"
    by (simp add: keys_def example_recommender_def)
  have 2: "map_of (all_user_preferences example_recommender) 10 =
      Some [(''Drama'', 5), (''Comedy'', 1)]"
    by (simp add: example_recommender_def)
  have 3: "99 \<notin> keys (all_user_ratings example_recommender)"
    by (simp add: keys_def example_recommender_def example_ratings_def)
  show ?thesis
    using 1 2 3
      key_errors [of 99 example_recommender 10 "[(''Drama'', 5), (''Comedy'', 1)]" 99]
    by simp
qed

text \<open>
  Claim C5: when \<open>recipient_id\<close> is not a key of the preference store, or its profile
  is the empty mapping, \<open>make_recommendations_for_id\<close> returns the empty set and raises
  nothing, whatever \<open>recommender_id\<close> is.
\<close>

theorem empty_profile_no_error:
  "recipient_id \<notin> keys (all_user_preferences self) \<or>
   map_of (all_user_preferences self) recipient_id = Some [] \<Longrightarrow>
   make_recommendations_for_id self recommender_id recipient_id = Inr {}"
  by (auto simp: make_recommendations_for_id_def keys_def map_of_eq_None_iff [symmetric])

theorem empty_profile_no_error_witness:
  "99 \<notin> keys (all_user_preferences example_recommender) \<and>
   make_recommendations_for_id example_recommender 98 99 = Inr {} \<and>
   map_of (all_user_preferences example_recommender) 30 = Some [] \<and>
   make_recommendations_for_id example_recommender 98 30 = Inr {}"
proof -
  have 1: "99 \<notin> keys (all_user_preferences example_recommender)"
    by (simp add: keys_def example_recommender_def)
  have 2: "map_of (all_user_preferences example_recommender) 30 = Some []"
    by (simp add: example_recommender_def)
  show ?thesis
    using 1 2 empty_profile_no_error [of 99 example_recommender 98]
      empty_profile_no_error [of 30 example_recommender 98]
    by simp
qed

section \<open>Properties of \<open>ratings_to_preferences\<close>\<close>

lemma dict_get_update:
  "dict_get (AList.update k v d) k' dflt = (if k' = k then v else dict_get d k' dflt)"
  by (simp add: dict_get_def update_conv')

lemma keys_update: "keys (AList.update k v d) = insert k (keys d)"
  by (simp add: keys_def dom_update)

lemma keys_Nil: "keys [] = {}"
  by (simp add: keys_def)

lemma map_of_keys: "map_of d k = None \<longleftrightarrow> k \<notin> keys d"
  by (simp add: keys_def map_of_eq_None_iff)

lemma add_genres_totals:
  "dict_get (fst (add_genres genres score acc)) g 0 =
   dict_get (fst acc) g 0 + real (count_list genres g) * score"
proof (induction genres arbitrary: acc)
  case Nil
  then show ?case by (cases acc) simp
next
  case (Cons genre genres)
  then show ?case by (cases acc) (simp add: dict_get_update algebra_simps)
qed

lemma add_genres_counts:
  "dict_get (snd (add_genres genres score acc)) g 0 =
   dict_get (snd acc) g 0 + count_list genres g"
proof (induction genres arbitrary: acc)
  case Nil
  then show ?case by (cases acc) simp
next
  case (Cons genre genres)
  then show ?case by (cases acc) (simp add: dict_get_update)
qed

lemma add_genres_keys:
  "keys (fst (add_genres genres score acc)) = keys (fst acc) \<union> set genres \<and>
   keys (snd (add_genres genres score acc)) = keys (snd acc) \<union> set genres"
proof (induction genres arbitrary: acc)
  case Nil
  then show ?case by (cases acc) simp
next
  case (Cons genre genres)
  then show ?case by (cases acc) (simp add: keys_update)
qed

lemma add_genres_distinct:
  "distinct (map fst (fst acc)) \<Longrightarrow> distinct (map fst (fst (add_genres genres score acc)))"
proof (induction genres arbitrary: acc)
  case Nil
  then show ?case by (cases acc) simp
next
  case (Cons genre genres)
  then show ?case by (cases acc) (simp add: distinct_update)
qed

lemma add_ratings_totals:
  "dict_get (fst (add_ratings mi user_ratings acc)) g 0 =
   dict_get (fst acc) g 0 + weighted_total mi user_ratings g"
proof (induction user_ratings arbitrary: acc)
  case Nil
  then show ?case by (simp add: weighted_total_def)
next
  case (Cons item rest)
  obtain movie_id score where item: "item = (movie_id, score)" by (cases item)
  show ?case
    using Cons.IH
    by (simp add: item weighted_total_def tag_count_def add_genres_totals
        split: option.splits)
qed

lemma add_ratings_counts:
  "dict_get (snd (add_ratings mi user_ratings acc)) g 0 =
   dict_get (snd acc) g 0 + weighted_count mi user_ratings g"
proof (induction user_ratings arbitrary: acc)
  case Nil
  then show ?case by (simp add: weighted_count_def)
next
  case (Cons item rest)
  obtain movie_id score where item: "item = (movie_id, score)" by (cases item)
  show ?case
    using Cons.IH
    by (simp add: item weighted_count_def tag_count_def add_genres_counts
        split: option.splits)
qed

lemma add_ratings_keys:
  "keys (fst (add_ratings mi user_ratings acc)) = keys (fst acc) \<union> rated_genres mi user_ratings \<and>
   keys (snd (add_ratings mi user_ratings acc)) = keys (snd acc) \<union> rated_genres mi user_ratings"
proof (induction user_ratings arbitrary: acc)
  case Nil
  then show ?case by (simp add: rated_genres_def)
next
  case (Cons item rest)
  obtain movie_id score where item: "item = (movie_id, score)" by (cases item)
  show ?case
    using Cons.IH
    by (auto simp: item rated_genres_def add_genres_keys split: option.splits)
qed

lemma add_ratings_distinct:
  "distinct (map fst (fst acc)) \<Longrightarrow>
   distinct (map fst (fst (add_ratings mi user_ratings acc)))"
proof (induction user_ratings arbitrary: acc)
  case Nil
  then show ?case by simp
next
  case (Cons item rest)
  obtain movie_id score where item: "item = (movie_id, score)" by (cases item)
  show ?case
    using Cons
    by (simp add: item add_genres_distinct split: option.splits)
qed

lemma weighted_count_pos:
  "g \<in> rated_genres mi user_ratings \<longleftrightarrow> 0 < weighted_count mi user_ratings g"
proof (induction user_ratings)
  case Nil
  then show ?case by (simp add: rated_genres_def weighted_count_def)
next
  case (Cons item rest)
  obtain movie_id score where item: "item = (movie_id, score)" by (cases item)
  have "0 < count_list genres g \<longleftrightarrow> g \<in> set genres" for genres
    by (simp add: count_list_0_iff zero_less_iff_neq_zero)
  with Cons show ?case
    by (auto simp: item rated_genres_def weighted_count_def tag_count_def
        split: option.splits)
qed


lemma compute_averages_ok:
  assumes "\<forall>item \<in> set totals. \<exists>c. map_of counts (fst item) = Some c \<and> c \<noteq> 0"
    and "distinct (map fst totals)"
  shows "\<exists>avg. compute_averages counts totals acc = Inr avg \<and>
     keys avg = keys acc \<union> keys totals \<and>
     (distinct (map fst acc) \<longrightarrow> distinct (map fst avg)) \<and>
     (\<forall>g. map_of avg g =
        (case map_of totals g of None \<Rightarrow> map_of acc g
         | Some t \<Rightarrow> Some (t / real (dict_get counts g 0))))"
  using assms
proof (induction totals arbitrary: acc)
  case Nil
  then show ?case by (simp add: keys_def)
next
  case (Cons item rest)
  obtain genre tot where item: "item = (genre, tot)" by (cases item)
  obtain c where c: "map_of counts genre = Some c" "c \<noteq> 0"
    using Cons.prems(1) item by auto
  have fresh: "map_of rest genre = None"
    using Cons.prems(2) item by (simp add: map_of_eq_None_iff)
  have rest: "\<forall>item \<in> set rest. \<exists>c. map_of counts (fst item) = Some c \<and> c \<noteq> 0"
    "distinct (map fst rest)"
    using Cons.prems by simp_all
  obtain avg where avg:
    "compute_averages counts rest (AList.update genre (tot / real c) acc) = Inr avg"
    "keys avg = keys (AList.update genre (tot / real c) acc) \<union> keys rest"
    "distinct (map fst (AList.update genre (tot / real c) acc)) \<longrightarrow> distinct (map fst avg)"
    "\<forall>g. map_of avg g =
        (case map_of rest g of None \<Rightarrow> map_of (AList.update genre (tot / real c) acc) g
         | Some t \<Rightarrow> Some (t / real (dict_get counts g 0)))"
    using Cons.IH [OF rest] by blast
  have 1: "compute_averages counts (item # rest) acc = Inr avg"
    using avg(1) c by (simp add: item)
  have 2: "keys avg = keys acc \<union> keys (item # rest)"
    using avg(2) by (simp add: keys_update item) (simp add: keys_def)
  have 3: "distinct (map fst acc) \<longrightarrow> distinct (map fst avg)"
    using avg(3) by (simp add: distinct_update)
  have 4: "map_of avg g =
        (case map_of (item # rest) g of None \<Rightarrow> map_of acc g
         | Some t \<Rightarrow> Some (t / real (dict_get counts g 0)))" for g
    using avg(4) fresh c by (simp add: item update_conv' dict_get_def split: option.splits)
  show ?case using 1 2 3 4 by blast
qed

lemma dict_get_Some: "map_of d k = Some v \<Longrightarrow> dict_get d k dflt = v"
  by (simp add: dict_get_def)

lemma keys_map_of: "k \<in> keys d \<Longrightarrow> \<exists>v. map_of d k = Some v"
  using map_of_keys [of d k] by auto

lemma ratings_to_preferences_weighted:
  "\<exists>p. ratings_to_preferences mi user_ratings = Inr p \<and> distinct (map fst p) \<and>
     keys p = rated_genres mi user_ratings \<and>
     (\<forall>g \<in> rated_genres mi user_ratings.
        0 < weighted_count mi user_ratings g \<and>
        map_of p g =
          Some (weighted_total mi user_ratings g / real (weighted_count mi user_ratings g)))"
proof -
  obtain totals counts where acc: "add_ratings mi user_ratings ([], []) = (totals, counts)"
    by (cases "add_ratings mi user_ratings ([], [])")
  have kt: "keys totals = rated_genres mi user_ratings"
    and kc: "keys counts = rated_genres mi user_ratings"
    using add_ratings_keys [of mi user_ratings "([], [])"] by (simp_all add: acc keys_Nil)
  have vt: "dict_get totals g 0 = weighted_total mi user_ratings g" for g
    using add_ratings_totals [of mi user_ratings "([], [])" g] by (simp add: acc dict_get_def)
  have vc: "dict_get counts g 0 = weighted_count mi user_ratings g" for g
    using add_ratings_counts [of mi user_ratings "([], [])" g] by (simp add: acc dict_get_def)
  have dt: "distinct (map fst totals)"
    using add_ratings_distinct [of "([], [])" mi user_ratings] by (simp add: acc)
  have pos: "\<forall>item \<in> set totals. \<exists>c. map_of counts (fst item) = Some c \<and> c \<noteq> 0"
  proof
    fix item assume "item \<in> set totals"
    then have g: "fst item \<in> rated_genres mi user_ratings"
      using kt by (auto simp: keys_def)
    then obtain c where c: "map_of counts (fst item) = Some c"
      using keys_map_of [of "fst item" counts] kc by auto
    have "c = weighted_count mi user_ratings (fst item)"
      using vc [of "fst item"] dict_get_Some [OF c] by simp
    then have "c \<noteq> 0" using g weighted_count_pos [of "fst item" mi user_ratings] by simp
    with c show "\<exists>c. map_of counts (fst item) = Some c \<and> c \<noteq> 0" by blast
  qed
  obtain p where p: "compute_averages counts totals [] = Inr p"
    "keys p = keys ([] :: profile) \<union> keys totals"
    "distinct (map fst ([] :: profile)) \<longrightarrow> distinct (map fst p)"
    "\<forall>g. map_of p g =
        (case map_of totals g of None \<Rightarrow> map_of ([] :: profile) g
         | Some t \<Rightarrow> Some (t / real (dict_get counts g 0)))"
    using compute_averages_ok [OF pos dt, of "[]"] by blast
  have val: "0 < weighted_count mi user_ratings g \<and> map_of p g =
      Some (weighted_total mi user_ratings g / real (weighted_count mi user_ratings g))"
    if g: "g \<in> rated_genres mi user_ratings" for g
  proof -
    obtain t where t: "map_of totals g = Some t"
      using keys_map_of [of g totals] kt g by auto
    have "t = weighted_total mi user_ratings g"
      using vt [of g] dict_get_Some [OF t] by simp
    then show ?thesis
      using p(4) t vc [of g] g weighted_count_pos [of g mi user_ratings] by simp
  qed
  show ?thesis
    using p(1,2,3) kt val by (simp add: ratings_to_preferences_def acc keys_Nil)
qed






section \<open>Properties of the constructor and of \<open>add_new_ratings\<close>\<close>

lemma ratings_to_preferences_total: "\<exists>p. ratings_to_preferences mi user_ratings = Inr p"
  using ratings_to_preferences_weighted [of mi user_ratings] by blast

lemma keys_Cons: "keys ((k, v) # d) = insert k (keys d)"
  by (simp add: keys_def)

lemma dict_update_keys: "keys (dict_update d new) = keys d \<union> keys new"
proof (induction new arbitrary: d)
  case Nil
  then show ?case by (simp add: keys_Nil)
next
  case (Cons item new)
  obtain k v where item: "item = (k, v)" by (cases item)
  show ?case by (simp add: item Cons.IH keys_update keys_Cons)
qed

lemma dict_update_other:
  "k \<notin> keys new \<Longrightarrow> map_of (dict_update d new) k = map_of d k"
proof (induction new arbitrary: d)
  case Nil
  then show ?case by simp
next
  case (Cons item new)
  obtain k' v where item: "item = (k', v)" by (cases item)
  show ?case using Cons by (simp add: item keys_Cons update_conv')
qed

lemma dict_update_new:
  "distinct (map fst new) \<Longrightarrow> map_of new k = Some v \<Longrightarrow>
   map_of (dict_update d new) k = Some v"
proof (induction new arbitrary: d)
  case Nil
  then show ?case by simp
next
  case (Cons item new)
  obtain k' v' where item: "item = (k', v')" by (cases item)
  show ?case
  proof (cases "k = k'")
    case True
    then have "k \<notin> keys new" using Cons.prems(1) item by (simp add: keys_def)
    then show ?thesis
      using Cons.prems(2) True by (simp add: item dict_update_other update_conv')
  next
    case False
    then show ?thesis using Cons by (simp add: item)
  qed
qed

lemma build_preferences_ok:
  "\<exists>prefs. build_preferences mi user_ratings acc = Inr prefs \<and>
     keys prefs = keys acc \<union> keys user_ratings \<and>
     (distinct (map fst acc) \<longrightarrow> distinct (map fst prefs)) \<and>
     (\<forall>u. u \<notin> keys user_ratings \<longrightarrow> map_of prefs u = map_of acc u) \<and>
     (distinct (map fst user_ratings) \<longrightarrow>
       (\<forall>u r. map_of user_ratings u = Some r \<longrightarrow>
          (\<exists>p. ratings_to_preferences mi r = Inr p \<and> map_of prefs u = Some p)))"
proof (induction user_ratings arbitrary: acc)
  case Nil
  then show ?case by (simp add: keys_Nil)
next
  case (Cons item rest)
  obtain user_id r where item: "item = (user_id, r)" by (cases item)
  obtain p where p: "ratings_to_preferences mi r = Inr p"
    using ratings_to_preferences_total by blast
  obtain prefs where prefs:
    "build_preferences mi rest (AList.update user_id p acc) = Inr prefs"
    "keys prefs = keys (AList.update user_id p acc) \<union> keys rest"
    "distinct (map fst (AList.update user_id p acc)) \<longrightarrow> distinct (map fst prefs)"
    "\<forall>u. u \<notin> keys rest \<longrightarrow> map_of prefs u = map_of (AList.update user_id p acc) u"
    "distinct (map fst rest) \<longrightarrow>
       (\<forall>u r. map_of rest u = Some r \<longrightarrow>
          (\<exists>p. ratings_to_preferences mi r = Inr p \<and> map_of prefs u = Some p))"
    using Cons.IH [of "AList.update user_id p acc"] by blast
  have 1: "build_preferences mi (item # rest) acc = Inr prefs"
    using prefs(1) p by (simp add: item)
  have 2: "keys prefs = keys acc \<union> keys (item # rest)"
    using prefs(2) by (simp add: item keys_update keys_Cons)
  have 5: "distinct (map fst acc) \<longrightarrow> distinct (map fst prefs)"
    using prefs(3) by (simp add: distinct_update)
  have 3: "\<forall>u. u \<notin> keys (item # rest) \<longrightarrow> map_of prefs u = map_of acc u"
    using prefs(4) by (simp add: item keys_Cons update_conv')
  have 4: "\<exists>p. ratings_to_preferences mi r' = Inr p \<and> map_of prefs u = Some p"
    if d: "distinct (map fst (item # rest))" and u: "map_of (item # rest) u = Some r'"
    for u r'
  proof (cases "u = user_id")
    case True
    then have "u \<notin> keys rest" using d item by (simp add: keys_def)
    then have "map_of prefs u = Some p" using prefs(4) True by (simp add: update_conv')
    moreover have "r' = r" using u True item by simp
    ultimately show ?thesis using p by simp
  next
    case False
    then show ?thesis using prefs(5) d u item by simp
  qed
  show ?case using 1 2 3 4 5 by blast
qed

text \<open>
  Claim C9: the constructor returns an object in which the preference store and the
  raw-ratings store have the same keys. \<open>add_new_ratings\<close>, given new data (a
  dictionary, so its keys are pairwise different), raises nothing; afterwards every user
  of the new data has exactly the new ratings as ratings entry and the profile of the
  new ratings as preference entry, every other user has the ratings and the profile
  they had before, no key of either store is lost, the catalogue is unchanged, and
  the two stores have the same keys if they had the same keys before.
\<close>

theorem add_new_ratings_merge:
  "(\<exists>self. init mi user_ratings = Inr self \<and>
      keys (all_user_preferences self) = keys (all_user_ratings self)) \<and>
   (distinct (map fst new_ratings) \<longrightarrow>
     (\<exists>self'. add_new_ratings self new_ratings = Inr self' \<and>
        movie_info self' = movie_info self \<and>
        (\<forall>u r. map_of new_ratings u = Some r \<longrightarrow>
           map_of (all_user_ratings self') u = Some r \<and>
           (\<exists>p. ratings_to_preferences (movie_info self) r = Inr p \<and>
                map_of (all_user_preferences self') u = Some p)) \<and>
        (\<forall>u. u \<notin> keys new_ratings \<longrightarrow>
           map_of (all_user_ratings self') u = map_of (all_user_ratings self) u \<and>
           map_of (all_user_preferences self') u = map_of (all_user_preferences self) u) \<and>
        keys (all_user_ratings self) \<subseteq> keys (all_user_ratings self') \<and>
        keys (all_user_preferences self) \<subseteq> keys (all_user_preferences self') \<and>
        (keys (all_user_preferences self) = keys (all_user_ratings self) \<longrightarrow>
           keys (all_user_preferences self') = keys (all_user_ratings self'))))"
proof -
  have construct: "\<exists>self. init mi user_ratings = Inr self \<and>
      keys (all_user_preferences self) = keys (all_user_ratings self)"
  proof -
    obtain prefs where "build_preferences mi user_ratings [] = Inr prefs"
      "keys prefs = keys ([] :: (int, profile) dict) \<union> keys user_ratings"
      using build_preferences_ok [of mi user_ratings "[]"] by blast
    then show ?thesis by (simp add: init_def keys_Nil)
  qed
  have ingest: "\<exists>self'. add_new_ratings self new_ratings = Inr self' \<and>
        movie_info self' = movie_info self \<and>
        (\<forall>u r. map_of new_ratings u = Some r \<longrightarrow>
           map_of (all_user_ratings self') u = Some r \<and>
           (\<exists>p. ratings_to_preferences (movie_info self) r = Inr p \<and>
                map_of (all_user_preferences self') u = Some p)) \<and>
        (\<forall>u. u \<notin> keys new_ratings \<longrightarrow>
           map_of (all_user_ratings self') u = map_of (all_user_ratings self) u \<and>
           map_of (all_user_preferences self') u = map_of (all_user_preferences self) u) \<and>
        keys (all_user_ratings self) \<subseteq> keys (all_user_ratings self') \<and>
        keys (all_user_preferences self) \<subseteq> keys (all_user_preferences self') \<and>
        (keys (all_user_preferences self) = keys (all_user_ratings self) \<longrightarrow>
           keys (all_user_preferences self') = keys (all_user_ratings self'))"
    if d: "distinct (map fst new_ratings)"
  proof -
    obtain np where np: "build_preferences (movie_info self) new_ratings [] = Inr np"
      "keys np = keys ([] :: (int, profile) dict) \<union> keys new_ratings"
      "distinct (map fst ([] :: (int, profile) dict)) \<longrightarrow> distinct (map fst np)"
      "distinct (map fst new_ratings) \<longrightarrow>
       (\<forall>u r. map_of new_ratings u = Some r \<longrightarrow>
          (\<exists>p. ratings_to_preferences (movie_info self) r = Inr p \<and> map_of np u = Some p))"
      using build_preferences_ok [of "movie_info self" new_ratings "[]"] by blast
    have knp: "keys np = keys new_ratings" using np(2) by (simp add: keys_Nil)
    have dnp: "distinct (map fst np)" using np(3) by simp
    let ?s = "self\<lparr>all_user_ratings := dict_update (all_user_ratings self) new_ratings,
                    all_user_preferences := dict_update (all_user_preferences self) np\<rparr>"
    have 1: "add_new_ratings self new_ratings = Inr ?s"
      using np(1) by (simp add: add_new_ratings_def)
    have 2: "map_of (all_user_ratings ?s) u = Some r \<and>
           (\<exists>p. ratings_to_preferences (movie_info self) r = Inr p \<and>
                map_of (all_user_preferences ?s) u = Some p)"
      if u: "map_of new_ratings u = Some r" for u r
    proof -
      obtain p where p: "ratings_to_preferences (movie_info self) r = Inr p"
        "map_of np u = Some p"
        using np(4) d u by blast
      have "map_of (all_user_ratings ?s) u = Some r"
        using dict_update_new [OF d u] by simp
      moreover have "map_of (all_user_preferences ?s) u = Some p"
        using dict_update_new [OF dnp p(2)] by simp
      ultimately show ?thesis using p(1) by blast
    qed
    have 3: "map_of (all_user_ratings ?s) u = map_of (all_user_ratings self) u \<and>
           map_of (all_user_preferences ?s) u = map_of (all_user_preferences self) u"
      if "u \<notin> keys new_ratings" for u
      using that knp by (simp add: dict_update_other)
    have 4: "keys (all_user_ratings self) \<subseteq> keys (all_user_ratings ?s)"
      "keys (all_user_preferences self) \<subseteq> keys (all_user_preferences ?s)"
      by (simp_all add: dict_update_keys)
    have 5: "keys (all_user_preferences self) = keys (all_user_ratings self) \<longrightarrow>
           keys (all_user_preferences ?s) = keys (all_user_ratings ?s)"
      by (simp add: dict_update_keys knp)
    have 6: "movie_info ?s = movie_info self" by simp
    show ?thesis using 1 2 3 4 5 6 by blast
  qed
  show ?thesis using construct ingest by blast
qed

theorem add_new_ratings_merge_witness:
  "init example_catalog example_ratings = Inr example_recommender \<and>
   keys (all_user_preferences example_recommender) =
     keys (all_user_ratings example_recommender) \<and>
   distinct (map fst example_new_ratings) \<and>
   (\<exists>self'. add_new_ratings example_recommender example_new_ratings = Inr self' \<and>
      map_of (all_user_ratings self') 20 = Some [(1, 2)] \<and>
      map_of (all_user_preferences self') 20 = Some [(''Drama'', 2)] \<and>
      map_of (all_user_ratings self') 10 = Some [(1, 5), (2, 1)] \<and>
      map_of (all_user_preferences self') 10 = Some [(''Drama'', 5), (''Comedy'', 1)] \<and>
      keys (all_user_preferences self') = keys (all_user_ratings self'))"
proof -
  note merge = add_new_ratings_merge [of example_catalog example_ratings
      example_new_ratings example_recommender]
  have i: "init example_catalog example_ratings = Inr example_recommender"
    by (simp add: init_def ratings_to_preferences_def example_catalog_def
        example_ratings_def example_recommender_def dict_get_def)
  have d: "distinct (map fst example_new_ratings)"
    by (simp add: example_new_ratings_def)
  have sync: "keys (all_user_preferences example_recommender) =
     keys (all_user_ratings example_recommender)"
    using merge i by auto
  have n20: "map_of example_new_ratings 20 = Some [(1, 2)]"
    by (simp add: example_new_ratings_def)
  have n10: "10 \<notin> keys example_new_ratings"
    by (simp add: example_new_ratings_def keys_def)
  have p20: "ratings_to_preferences (movie_info example_recommender) [(1, 2)] =
      Inr [(''Drama'', 2)]"
    by (simp add: ratings_to_preferences_def example_recommender_def example_catalog_def
        dict_get_def)
  have r10: "map_of (all_user_ratings example_recommender) 10 = Some [(1, 5), (2, 1)]"
    by (simp add: example_recommender_def example_ratings_def)
  have q10: "map_of (all_user_preferences example_recommender) 10 =
      Some [(''Drama'', 5), (''Comedy'', 1)]"
    by (simp add: example_recommender_def)
  obtain self' where s:
    "add_new_ratings example_recommender example_new_ratings = Inr self'"
    "\<forall>u r. map_of example_new_ratings u = Some r \<longrightarrow>
       map_of (all_user_ratings self') u = Some r \<and>
       (\<exists>p. ratings_to_preferences (movie_info example_recommender) r = Inr p \<and>
            map_of (all_user_preferences self') u = Some p)"
    "\<forall>u. u \<notin> keys example_new_ratings \<longrightarrow>
       map_of (all_user_ratings self') u = map_of (all_user_ratings example_recommender) u \<and>
       map_of (all_user_preferences self') u =
         map_of (all_user_preferences example_recommender) u"
    "keys (all_user_preferences example_recommender) =
       keys (all_user_ratings example_recommender) \<longrightarrow>
     keys (all_user_preferences self') = keys (all_user_ratings self')"
    using merge d by blast
  have a: "map_of (all_user_ratings self') 20 = Some [(1, 2)]"
    using s(2) n20 by blast
  have b: "map_of (all_user_preferences self') 20 = Some [(''Drama'', 2)]"
    using s(2) n20 p20 by fastforce
  have c: "map_of (all_user_ratings self') 10 = Some [(1, 5), (2, 1)]"
    using s(3) n10 r10 by simp
  have e: "map_of (all_user_preferences self') 10 = Some [(''Drama'', 5), (''Comedy'', 1)]"
    using s(3) n10 q10 by simp
  have f: "keys (all_user_preferences self') = keys (all_user_ratings self')"
    using s(4) sync by simp
  show ?thesis using i d sync s(1) a b c e f by blast
qed

section \<open>Properties of \<open>make_recommendations_for_id\<close>: the selection\<close>

text \<open>
  The sort of the code returns the one list that is \<open>ranked\<close>: the key
  \<open>(-rating, name)\<close> determines the pair, so two lists of the same pairs with ascending
  keys are equal.
\<close>

lemma sort_pairs_key: "(\<lambda>pair. (- snd pair, fst pair)) = (\<lambda>(name, rating). (- rating :: real, name :: string))"
  by (simp add: fun_eq_iff)

lemma ranked_iff: "ranked xs ys \<longleftrightarrow> ys = sort_pairs xs"
proof
  assume r: "ranked xs ys"
  let ?k = "\<lambda>pair :: string \<times> real. (- snd pair, fst pair)"
  have "inj ?k" by (auto simp: inj_on_def)
  then have inj: "inj_on ?k (set xs)" by (rule inj_on_subset) simp
  have s: "sorted (map ?k ys)" and m: "mset xs = mset ys"
    using r by (simp_all add: ranked_def sort_pairs_key)
  show "ys = sort_pairs xs"
    using sort_key_inj_key_eq [OF m inj s] by (simp add: sort_pairs_def)
next
  assume "ys = sort_pairs xs"
  then show "ranked xs ys"
    by (simp add: ranked_def sort_pairs_def sort_pairs_key [symmetric])
qed








section \<open>Bounds of \<open>cosine_similarity\<close>\<close>

text \<open>
  The Cauchy-Schwarz inequality for finite sums, by the discriminant of the quadratic
  \<open>\<Sum>i. (x i * t + y i)\<^sup>2\<close>, and with it the lower bound \<open>-1\<close> of the similarity: the
  dot product runs over the shared genres only, the magnitudes over all the values.
\<close>

lemma sum_product_square_le:
  fixes x y :: "'a \<Rightarrow> real"
  assumes "finite S"
  shows "(\<Sum>i\<in>S. x i * y i)\<^sup>2 \<le> (\<Sum>i\<in>S. (x i)\<^sup>2) * (\<Sum>i\<in>S. (y i)\<^sup>2)"
proof -
  let ?A = "\<Sum>i\<in>S. (x i)\<^sup>2" and ?B = "\<Sum>i\<in>S. (y i)\<^sup>2" and ?D = "\<Sum>i\<in>S. x i * y i"
  have quad: "0 \<le> ?A * t\<^sup>2 + 2 * ?D * t + ?B" for t
  proof -
    have "(\<Sum>i\<in>S. (x i * t + y i)\<^sup>2) =
        (\<Sum>i\<in>S. (x i)\<^sup>2 * t\<^sup>2 + 2 * (x i * y i) * t + (y i)\<^sup>2)"
      by (rule sum.cong) (simp_all add: power2_eq_square algebra_simps)
    also have "\<dots> = ?A * t\<^sup>2 + 2 * ?D * t + ?B"
      by (simp add: sum.distrib sum_distrib_left sum_distrib_right)
    finally have "?A * t\<^sup>2 + 2 * ?D * t + ?B = (\<Sum>i\<in>S. (x i * t + y i)\<^sup>2)" by simp
    then show ?thesis by (simp add: sum_nonneg)
  qed
  show ?thesis
  proof (cases "?A = 0")
    case True
    then have "\<forall>i\<in>S. (x i)\<^sup>2 = 0"
      using assms by (simp add: sum_nonneg_eq_0_iff)
    then have "?D = 0" by simp
    with True show ?thesis by simp
  next
    case False
    have "0 \<le> ?A" by (simp add: sum_nonneg)
    with False have pos: "0 < ?A" by simp
    have "0 \<le> ?A * (- ?D / ?A)\<^sup>2 + 2 * ?D * (- ?D / ?A) + ?B" by (rule quad)
    also have "\<dots> = ?B - ?D\<^sup>2 / ?A"
      using False by (simp add: power2_eq_square field_simps)
    finally have "?D\<^sup>2 / ?A \<le> ?B" by simp
    then have "?D\<^sup>2 \<le> ?B * ?A" using pos by (simp add: pos_divide_le_eq)
    then show ?thesis by (simp add: mult.commute)
  qed
qed

lemma squares_nonneg: "0 \<le> sum_list (map (\<lambda>v. v * v) (map snd (p :: profile)))"
  by (rule sum_list_nonneg) auto

lemma squares_of_keys_le:
  fixes p :: profile
  shows "finite S \<Longrightarrow>
   (\<Sum>g\<in>S \<inter> keys p. (the (map_of p g))\<^sup>2) \<le> sum_list (map (\<lambda>v. v * v) (map snd p))"
proof (induction p arbitrary: S)
  case Nil
  then show ?case by (simp add: keys_Nil)
next
  case (Cons item rest)
  obtain k v where item: "item = (k, v)" by (cases item)
  have split: "S \<inter> keys (item # rest) = (S \<inter> {k}) \<union> ((S - {k}) \<inter> keys rest)"
    by (auto simp: item keys_Cons)
  have "(\<Sum>g\<in>S \<inter> keys (item # rest). (the (map_of (item # rest) g))\<^sup>2) =
      (\<Sum>g\<in>S \<inter> {k}. (the (map_of (item # rest) g))\<^sup>2) +
      (\<Sum>g\<in>(S - {k}) \<inter> keys rest. (the (map_of (item # rest) g))\<^sup>2)"
    unfolding split using Cons.prems by (intro sum.union_disjoint) auto
  also have "(\<Sum>g\<in>(S - {k}) \<inter> keys rest. (the (map_of (item # rest) g))\<^sup>2) =
      (\<Sum>g\<in>(S - {k}) \<inter> keys rest. (the (map_of rest g))\<^sup>2)"
    by (rule sum.cong) (auto simp: item)
  also have "(\<Sum>g\<in>S \<inter> {k}. (the (map_of (item # rest) g))\<^sup>2) \<le> v * v"
    by (cases "k \<in> S") (simp_all add: item power2_eq_square)
  also have "(\<Sum>g\<in>(S - {k}) \<inter> keys rest. (the (map_of rest g))\<^sup>2) \<le>
      sum_list (map (\<lambda>v. v * v) (map snd rest))"
    using Cons.IH [of "S - {k}"] Cons.prems by simp
  finally show ?case by (simp add: item)
qed

lemma finite_keys: "finite (keys p)"
  by (simp add: keys_def)

lemma dot_product_bound: "\<bar>dot_product a b\<bar> \<le> magnitude a * magnitude b"
proof -
  let ?S = "shared_genres a b"
  let ?x = "\<lambda>g. the (map_of a g)" and ?y = "\<lambda>g. the (map_of b g)"
  let ?A = "sum_list (map (\<lambda>v. v * v) (map snd a))"
  let ?B = "sum_list (map (\<lambda>v. v * v) (map snd b))"
  have fin: "finite ?S" by (simp add: shared_genres_def finite_keys)
  have Sa: "?S \<inter> keys a = ?S" and Sb: "?S \<inter> keys b = ?S"
    by (auto simp: shared_genres_def)
  have a: "(\<Sum>g\<in>?S. (?x g)\<^sup>2) \<le> ?A"
    using squares_of_keys_le [OF fin, of a] by (simp add: Sa)
  have b: "(\<Sum>g\<in>?S. (?y g)\<^sup>2) \<le> ?B"
    using squares_of_keys_le [OF fin, of b] by (simp add: Sb)
  have "(dot_product a b)\<^sup>2 \<le> (\<Sum>g\<in>?S. (?x g)\<^sup>2) * (\<Sum>g\<in>?S. (?y g)\<^sup>2)"
    unfolding dot_product_def by (rule sum_product_square_le [OF fin])
  also have "\<dots> \<le> ?A * ?B"
    using a b squares_nonneg [of a] by (intro mult_mono) (simp_all add: sum_nonneg)
  finally have "sqrt ((dot_product a b)\<^sup>2) \<le> sqrt (?A * ?B)"
    by (simp only: real_sqrt_le_iff)
  then show ?thesis
    by (simp add: magnitude_def real_sqrt_mult)
qed

lemma cosine_similarity_ge: "- 1 \<le> cosine_similarity a b"
proof (cases "shared_genres a b = {} \<or> magnitude a = 0 \<or> magnitude b = 0")
  case True
  then show ?thesis by (auto simp: cosine_similarity_def)
next
  case False
  have "0 \<le> magnitude a" "0 \<le> magnitude b" using squares_nonneg [of a] squares_nonneg [of b] by (simp_all add: magnitude_def)
  with False have pos: "0 < magnitude a * magnitude b" by simp
  have "- (magnitude a * magnitude b) \<le> dot_product a b"
    using dot_product_bound [of a b] by linarith
  then have "- 1 \<le> dot_product a b / (magnitude a * magnitude b)"
    using pos by (simp add: pos_le_divide_eq)
  with False show ?thesis by (simp add: cosine_similarity_def)
qed

text \<open>
  In exact arithmetic the similarity of a profile with itself is 1 as soon as one of
  its values is not 0. The floats of the code round the square root, the product and
  the quotient, so this identity of the real numbers says nothing about the equality
  \<open>cosine_similarity(A, A) == 1.0\<close> of two floats.
\<close>

lemma cosine_similarity_self:
  assumes "distinct (map fst a)" and "\<exists>v \<in> set (map snd a). v \<noteq> 0"
  shows "cosine_similarity a a = 1"
proof -
  let ?A = "sum_list (map (\<lambda>v. v * v) (map snd a))"
  have keys: "shared_genres a a = keys a" by (simp add: shared_genres_def)
  have dot: "dot_product a a = ?A"
  proof -
    have "dot_product a a = (\<Sum>g\<in>set (map fst a). the (map_of a g) * the (map_of a g))"
      by (simp only: dot_product_def keys keys_def)
    also have "\<dots> = sum_list (map (\<lambda>g. the (map_of a g) * the (map_of a g)) (map fst a))"
      by (rule sum_list_distinct_conv_sum_set [OF assms(1), symmetric])
    also have "\<dots> = ?A"
    proof -
      have "the (map_of a (fst e)) = snd e" if "e \<in> set a" for e
        using assms(1) that by (cases e) simp
      then have eq: "map (\<lambda>e. the (map_of a (fst e)) * the (map_of a (fst e))) a =
          map (\<lambda>e. snd e * snd e) a"
        by (intro map_cong) simp_all
      have "sum_list (map (\<lambda>g. the (map_of a g) * the (map_of a g)) (map fst a)) =
          sum_list (map (\<lambda>e. the (map_of a (fst e)) * the (map_of a (fst e))) a)"
        by (simp add: o_def)
      also have "\<dots> = sum_list (map (\<lambda>e. snd e * snd e) a)"
        by (simp only: eq)
      also have "\<dots> = ?A" by (simp add: o_def)
      finally show ?thesis .
    qed
    finally show ?thesis .
  qed
  obtain v where v: "v \<in> set (map snd a)" "v \<noteq> 0" using assms(2) by blast
  have "0 < v * v" using v(2) by (auto simp: zero_less_mult_iff)
  moreover have "v * v \<le> ?A"
    using v(1) by (intro member_le_sum_list) auto
  ultimately have pos: "0 < ?A" by linarith
  have ne: "keys a \<noteq> {}" using v(1) by (auto simp: keys_def)
  have mag: "magnitude a * magnitude a = ?A"
    using pos by (simp add: magnitude_def)
  have "magnitude a \<noteq> 0" using pos by (simp add: magnitude_def)
  then show ?thesis
    using ne pos by (simp add: cosine_similarity_def keys dot mag)
qed

section \<open>Properties of \<open>find_similar_user_by_id\<close>\<close>

text \<open>
  The loop computes the greatest pair, in the lexicographic order, among the start pair
  \<open>(-1, -1)\<close> and the pairs \<open>(similarity, other_id)\<close> of the candidates. A maximum does
  not depend on the order of the iteration. It is the pair of a best candidate as soon
  as one candidate has a similarity other than \<open>-1\<close> or a key that is at least \<open>-1\<close>;
  it is the start pair, and the result \<open>-1\<close>, when there is no candidate, and also when
  every candidate has the similarity \<open>-1\<close> and a key below \<open>-1\<close>.
\<close>

lemma scan_users_fold:
  "scan_users user_id target_prefs store best =
   fold max (map (match_key target_prefs) (filter (\<lambda>entry. fst entry \<noteq> user_id) store)) best"
proof (induction store arbitrary: best)
  case Nil
  then show ?case by (cases best) simp
next
  case (Cons entry store)
  obtain other_id other_prefs where entry: "entry = (other_id, other_prefs)" by (cases entry)
  obtain best_similarity best_match_id where best: "best = (best_similarity, best_match_id)"
    by (cases best)
  show ?case
    by (auto simp: entry best Cons.IH match_key_def Let_def max_def)
qed

lemma scan_users_Max:
  "scan_users user_id target_prefs store best =
   Max (insert best (match_key target_prefs ` other_users store user_id))"
proof -
  have "insert best (match_key target_prefs ` other_users store user_id) =
      set (best # map (match_key target_prefs) (filter (\<lambda>entry. fst entry \<noteq> user_id) store))"
    by (auto simp: other_users_def)
  then show ?thesis
    by (simp only: scan_users_fold Max.set_eq_fold)
qed

lemma finite_other_users: "finite (other_users store user_id)"
  by (simp add: other_users_def)

lemma find_similar_user_alone:
  assumes "map_of (all_user_preferences self) user_id = Some target_prefs"
    and "other_users (all_user_preferences self) user_id = {}"
  shows "find_similar_user_by_id self user_id = Inr (- 1)"
  using assms by (simp add: find_similar_user_by_id_def scan_users_Max)

lemma find_similar_user_best:
  assumes tp: "map_of (all_user_preferences self) user_id = Some target_prefs"
    and c: "(c, p) \<in> other_users (all_user_preferences self) user_id"
    and ok: "cosine_similarity target_prefs p \<noteq> - 1 \<or> - 1 \<le> c"
  shows "\<exists>m. find_similar_user_by_id self user_id = Inr m \<and>
     best_match target_prefs (other_users (all_user_preferences self) user_id) m"
proof -
  let ?C = "other_users (all_user_preferences self) user_id"
  let ?S = "insert (- 1, - 1) (match_key target_prefs ` ?C)"
  let ?M = "Max ?S"
  have fin: "finite ?S" by (simp add: finite_other_users)
  have run: "find_similar_user_by_id self user_id = Inr (snd ?M)"
    using tp by (simp add: find_similar_user_by_id_def scan_users_Max)
  have ge: "k \<le> ?M" if "k \<in> ?S" for k
    using fin that by (rule Max_ge)
  have init: "(- 1, - 1) \<le> match_key target_prefs (c, p)"
    using ok cosine_similarity_ge [of target_prefs p] by (auto simp: match_key_def)
  have "?M \<in> ?S" using fin by (intro Max_in) simp_all
  moreover have "?M \<in> match_key target_prefs ` ?C" if "?M = (- 1, - 1)"
  proof -
    have "match_key target_prefs (c, p) \<le> (- 1, - 1)"
      using ge [of "match_key target_prefs (c, p)"] c that by simp
    with init have "match_key target_prefs (c, p) = (- 1, - 1)" by (rule order.antisym [rotated])
    then show ?thesis using c that by (metis imageI)
  qed
  ultimately have "?M \<in> match_key target_prefs ` ?C" by blast
  then obtain m mp where m: "(m, mp) \<in> ?C" "?M = match_key target_prefs (m, mp)"
    by auto
  have "cosine_similarity target_prefs op < cosine_similarity target_prefs mp \<or>
      cosine_similarity target_prefs op = cosine_similarity target_prefs mp \<and> oid \<le> m"
    if "(oid, op) \<in> ?C" for oid op
  proof -
    have "match_key target_prefs (oid, op) \<in> ?S" using that by simp
    then have "match_key target_prefs (oid, op) \<le> match_key target_prefs (m, mp)"
      using ge m(2) by simp
    then show ?thesis by (auto simp: match_key_def)
  qed
  then have "best_match target_prefs ?C m"
    using m(1) by (auto simp: best_match_def)
  moreover have "snd ?M = m" using m(2) by (simp add: match_key_def)
  ultimately show ?thesis using run by simp
qed

lemma find_similar_user_sentinel:
  assumes tp: "map_of (all_user_preferences self) user_id = Some target_prefs"
    and low: "\<forall>(c, p) \<in> other_users (all_user_preferences self) user_id.
       cosine_similarity target_prefs p = - 1 \<and> c < - 1"
  shows "find_similar_user_by_id self user_id = Inr (- 1)"
proof -
  let ?C = "other_users (all_user_preferences self) user_id"
  let ?S = "insert (- 1, - 1) (match_key target_prefs ` ?C)"
  have fin: "finite ?S" by (simp add: finite_other_users)
  have "k \<le> (- 1, - 1)" if "k \<in> ?S" for k
    using that low by (auto simp: match_key_def)
  then have "Max ?S = (- 1, - 1)"
    using fin by (intro Max_eqI) simp_all
  then show ?thesis
    using tp by (simp add: find_similar_user_by_id_def scan_users_Max)
qed

lemma find_similar_user_order:
  assumes "distinct (map fst (all_user_preferences self))"
    and "distinct (map fst (all_user_preferences self'))"
    and "set (all_user_preferences self') = set (all_user_preferences self)"
  shows "find_similar_user_by_id self' user_id = find_similar_user_by_id self user_id"
proof -
  have "map_of (all_user_preferences self') = map_of (all_user_preferences self)"
    using assms by (simp add: map_of_inject_set)
  moreover have "other_users (all_user_preferences self') user_id =
      other_users (all_user_preferences self) user_id"
    using assms(3) by (simp add: other_users_def)
  ultimately show ?thesis
    by (cases "map_of (all_user_preferences self) user_id")
      (simp_all add: find_similar_user_by_id_def scan_users_Max)
qed

text \<open>
  Claim C3 says that for every \<open>user_id\<close> of the preference store the result is the
  candidate (a key of the store other than \<open>user_id\<close>) of maximal similarity, the one
  with the greatest key among those of maximal similarity, whatever the order of the
  iteration, and \<open>-1\<close> when the store holds the target only. The code does not return a
  candidate on the store \<open>{5: {Drama: 1}, -3: {Drama: -1}}\<close>, which the constructor
  builds from the ratings \<open>{5: {1: 1}, -3: {1: -1}}\<close>: the only candidate \<open>-3\<close> has the
  similarity \<open>-1\<close>, which is not greater than the start value \<open>-1.0\<close>, and its key is not
  greater than the start key \<open>-1\<close>, so the result is \<open>-1\<close>, which is not a candidate.
\<close>

theorem find_similar_user_negative_id:
  "init sentinel_catalog sentinel_ratings = Inr sentinel_recommender \<and>
   map_of (all_user_preferences sentinel_recommender) 5 = Some [(''Drama'', 1)] \<and>
   other_users (all_user_preferences sentinel_recommender) 5 = {(- 3, [(''Drama'', - 1)])} \<and>
   cosine_similarity [(''Drama'', 1)] [(''Drama'', - 1)] = - 1 \<and>
   find_similar_user_by_id sentinel_recommender 5 = Inr (- 1)"
proof -
  have 1: "init sentinel_catalog sentinel_ratings = Inr sentinel_recommender"
    by (simp add: init_def ratings_to_preferences_def sentinel_catalog_def
        sentinel_ratings_def sentinel_recommender_def dict_get_def)
  have 2: "map_of (all_user_preferences sentinel_recommender) 5 = Some [(''Drama'', 1)]"
    by (simp add: sentinel_recommender_def)
  have 3: "other_users (all_user_preferences sentinel_recommender) 5 =
      {(- 3, [(''Drama'', - 1)])}"
    by (auto simp: other_users_def sentinel_recommender_def)
  have 4: "cosine_similarity [(''Drama'', 1)] [(''Drama'', - 1)] = - 1"
    by (simp add: cosine_similarity_def shared_genres_def keys_def magnitude_def
        dot_product_def)
  have 5: "find_similar_user_by_id sentinel_recommender 5 = Inr (- 1)"
    by (simp add: find_similar_user_by_id_def sentinel_recommender_def 4)
  show ?thesis using 1 2 3 4 5 by simp
qed

end
